theory Spec2Isabelle
  imports Main "HOL-Library.AList"
begin

section \<open>Time Accounting Engine (background.js)\<close>

text \<open>
  The service worker keeps three globals: \<open>tabToTitle\<close>, \<open>titleTimers\<close> and
  \<open>currentActiveTabId\<close>. They are the fields of the record \<open>engine\<close>, which every
  handler takes and returns. JavaScript numbers are modelled as \<open>int\<close> (time stamps in
  milliseconds and counters), \<open>null\<close> as \<open>None\<close>. Every handler is given the value that
  \<open>Date.now()\<close> returns while it runs as the argument \<open>now\<close>. Titles are the keys of a
  plain object; the names inherited from \<open>Object.prototype\<close> are not modelled. Nor are
  \<open>saveState\<close> and \<open>loadState\<close>, which copy the two maps to and from
  \<open>chrome.storage.local\<close> and change nothing in memory while the worker runs.
\<close>

record TimerState =
  accumulated :: int
  runningSince :: "int option"
  activeCount :: int

record engine =
  tabToTitle :: "int \<rightharpoonup> string"
  titleTimers :: "string \<rightharpoonup> TimerState"
  currentActiveTabId :: "int option"

text \<open>
  JavaScript truthiness, as the conditions \<open>if (timer.runningSince)\<close>,
  \<open>if (currentActiveTabId && ...)\<close> and \<open>if (title)\<close> test it: \<open>null\<close>, the number
  \<open>0\<close> and the empty string are falsy.
\<close>

definition truthy_num :: "int option \<Rightarrow> bool" where
  "truthy_num v = (case v of None \<Rightarrow> False | Some n \<Rightarrow> n \<noteq> 0)"

definition truthy_str :: "string option \<Rightarrow> bool" where
  "truthy_str v = (case v of None \<Rightarrow> False | Some s \<Rightarrow> s \<noteq> [])"

definition new_timer :: TimerState where
  "new_timer = \<lparr>accumulated = 0, runningSince = None, activeCount = 0\<rparr>"

definition init_engine :: engine where
  "init_engine = \<lparr>tabToTitle = Map.empty, titleTimers = Map.empty, currentActiveTabId = None\<rparr>"

definition ensureTitleTimer :: "string \<Rightarrow> engine \<Rightarrow> engine" where
  "ensureTitleTimer title s =
     (case titleTimers s title of
        None \<Rightarrow> s\<lparr>titleTimers := (titleTimers s)(title \<mapsto> new_timer)\<rparr>
      | Some _ \<Rightarrow> s)"

text \<open>The body of \<open>startTitleIfNeeded\<close> on the timer object it fetched.\<close>

definition start_timer :: "int \<Rightarrow> TimerState \<Rightarrow> TimerState" where
  "start_timer now timer =
     (let t1 = (if activeCount timer = 0 \<and> \<not> truthy_num (runningSince timer)
                then timer\<lparr>runningSince := Some now\<rparr> else timer)
      in t1\<lparr>activeCount := activeCount t1 + 1\<rparr>)"

definition startTitleIfNeeded :: "int \<Rightarrow> string \<Rightarrow> engine \<Rightarrow> engine" where
  "startTitleIfNeeded now title s =
     (let s1 = ensureTitleTimer title s in
      case titleTimers s1 title of
        None \<Rightarrow> s1
      | Some timer \<Rightarrow> s1\<lparr>titleTimers := (titleTimers s1)(title \<mapsto> start_timer now timer)\<rparr>)"

text \<open>
  The block shared by \<open>stopTitleIfNeeded\<close> and \<open>pauseAllTitles\<close>: bank the elapsed time
  if \<open>runningSince\<close> is truthy, then reset \<open>activeCount\<close>.
\<close>

definition bank_timer :: "int \<Rightarrow> TimerState \<Rightarrow> TimerState" where
  "bank_timer now timer =
     (let t2 = (case runningSince timer of
                  None \<Rightarrow> timer
                | Some since \<Rightarrow>
                    if since \<noteq> 0
                    then timer\<lparr>accumulated := accumulated timer + (now - since),
                               runningSince := None\<rparr>
                    else timer)
      in t2\<lparr>activeCount := 0\<rparr>)"

definition stop_timer :: "int \<Rightarrow> TimerState \<Rightarrow> TimerState" where
  "stop_timer now timer =
     (let t1 = (if activeCount timer > 0
                then timer\<lparr>activeCount := activeCount timer - 1\<rparr> else timer)
      in if activeCount t1 \<le> 0 then bank_timer now t1 else t1)"

definition stopTitleIfNeeded :: "int \<Rightarrow> string \<Rightarrow> engine \<Rightarrow> engine" where
  "stopTitleIfNeeded now title s =
     (case titleTimers s title of
        None \<Rightarrow> s
      | Some timer \<Rightarrow> s\<lparr>titleTimers := (titleTimers s)(title \<mapsto> stop_timer now timer)\<rparr>)"

definition pauseAllTitles :: "int \<Rightarrow> engine \<Rightarrow> engine" where
  "pauseAllTitles now s =
     s\<lparr>titleTimers := (\<lambda>title. map_option (bank_timer now) (titleTimers s title))\<rparr>"

text \<open>\<open>tabToTitle[String(tabId)]\<close> followed by the truthiness test on the title.\<close>

definition title_of_tab :: "engine \<Rightarrow> int \<Rightarrow> string option" where
  "title_of_tab s tabId =
     (if truthy_str (tabToTitle s tabId) then tabToTitle s tabId else None)"

definition handleTabChange :: "int \<Rightarrow> int option \<Rightarrow> engine \<Rightarrow> engine" where
  "handleTabChange now newTabId s =
     (if currentActiveTabId s = newTabId then s
      else
        let s1 = (case currentActiveTabId s of
                    None \<Rightarrow> s
                  | Some prev \<Rightarrow>
                      (case title_of_tab s prev of
                         None \<Rightarrow> s
                       | Some prevTitle \<Rightarrow> stopTitleIfNeeded now prevTitle s));
            s2 = s1\<lparr>currentActiveTabId := newTabId\<rparr>
        in case newTabId of
             None \<Rightarrow> s2
           | Some tabId \<Rightarrow>
               (case title_of_tab s2 tabId of
                  None \<Rightarrow> s2
                | Some title \<Rightarrow> startTitleIfNeeded now title s2))"

definition handleTabRemoved :: "int \<Rightarrow> int \<Rightarrow> engine \<Rightarrow> engine" where
  "handleTabRemoved now tabId s =
     (let title = title_of_tab s tabId;
          s1 = s\<lparr>tabToTitle := (tabToTitle s)(tabId := None)\<rparr>
      in if currentActiveTabId s1 = Some tabId
         then (let s2 = (case title of None \<Rightarrow> s1
                         | Some t \<Rightarrow> stopTitleIfNeeded now t s1)
               in s2\<lparr>currentActiveTabId := None\<rparr>)
         else s1)"

text \<open>
  The \<open>windows.onFocusChanged\<close> listener. Its argument is \<open>None\<close> for
  \<open>WINDOW_ID_NONE\<close>; otherwise it carries the answer of the tab query, the id of the
  active tab of the focused window if there is one. The listener tests that id for
  truthiness.
\<close>

definition onFocusChanged :: "int \<Rightarrow> int option option \<Rightarrow> engine \<Rightarrow> engine" where
  "onFocusChanged now focus s =
     (case focus of
        None \<Rightarrow> (pauseAllTitles now s)\<lparr>currentActiveTabId := None\<rparr>
      | Some query \<Rightarrow>
          if truthy_num query then handleTabChange now query s
          else (pauseAllTitles now s)\<lparr>currentActiveTabId := None\<rparr>)"

text \<open>
  The \<open>runtime.onMessage\<close> listener for a \<open>reportTitle\<close> message of the tab
  \<open>tabId\<close>; \<open>title\<close> is \<open>msg.title\<close>.
\<close>

definition reportTitle :: "int \<Rightarrow> int \<Rightarrow> string option \<Rightarrow> engine \<Rightarrow> engine" where
  "reportTitle now tabId title s =
     (case (if truthy_str title then title else None) of
        Some t \<Rightarrow>
          (let s1 = s\<lparr>tabToTitle := (tabToTitle s)(tabId \<mapsto> t)\<rparr>;
               s2 = ensureTitleTimer t s1
           in if truthy_num (currentActiveTabId s2) \<and> currentActiveTabId s2 = Some tabId
              then startTitleIfNeeded now t s2 else s2)
      | None \<Rightarrow> s\<lparr>tabToTitle := (tabToTitle s)(tabId := None)\<rparr>)"

text \<open>The operations of the engine as events, and the dispatch to their handlers.\<close>

datatype event =
    Start string
  | Stop string
  | PauseAll
  | TabChange "int option"
  | TabRemoved int
  | FocusChanged "int option option"
  | Report int "string option"

fun step :: "int \<Rightarrow> event \<Rightarrow> engine \<Rightarrow> engine" where
  "step now (Start title) s = startTitleIfNeeded now title s"
| "step now (Stop title) s = stopTitleIfNeeded now title s"
| "step now PauseAll s = pauseAllTitles now s"
| "step now (TabChange newTabId) s = handleTabChange now newTabId s"
| "step now (TabRemoved tabId) s = handleTabRemoved now tabId s"
| "step now (FocusChanged focus) s = onFocusChanged now focus s"
| "step now (Report tabId title) s = reportTitle now tabId title s"

text \<open>A run: the events with the clock reading at which each is handled.\<close>

fun run :: "(int \<times> event) list \<Rightarrow> engine \<Rightarrow> engine" where
  "run [] s = s"
| "run ((now, e) # es) s = run es (step now e s)"

text \<open>The fields of the timer of a title; a title without a timer has banked nothing.\<close>

definition accumulated_of :: "engine \<Rightarrow> string \<Rightarrow> int" where
  "accumulated_of s title = (case titleTimers s title of None \<Rightarrow> 0 | Some t \<Rightarrow> accumulated t)"

definition activeCount_of :: "engine \<Rightarrow> string \<Rightarrow> int" where
  "activeCount_of s title = (case titleTimers s title of None \<Rightarrow> 0 | Some t \<Rightarrow> activeCount t)"

definition runningSince_of :: "engine \<Rightarrow> string \<Rightarrow> int option" where
  "runningSince_of s title =
     (case titleTimers s title of None \<Rightarrow> None | Some t \<Rightarrow> runningSince t)"

text \<open>
  The invariant of the data model: \<open>runningSince\<close> is set exactly when \<open>activeCount\<close>
  is positive. A \<open>runningSince\<close> of \<open>0\<close>, which is not \<open>null\<close> and yet falsy for the
  code, does not occur, so "set" can be read either way.
\<close>

definition timer_inv :: "TimerState \<Rightarrow> bool" where
  "timer_inv t = ((runningSince t \<noteq> None) = (0 < activeCount t) \<and> runningSince t \<noteq> Some 0)"

definition engine_inv :: "engine \<Rightarrow> bool" where
  "engine_inv s = (\<forall>t \<in> ran (titleTimers s). timer_inv t)"

text \<open>Repeated identity reports of one tab, and repeated stops of one title.\<close>

definition reports :: "int \<Rightarrow> string \<Rightarrow> int list \<Rightarrow> (int \<times> event) list" where
  "reports tabId T ts = map (\<lambda>now. (now, Report tabId (Some T))) ts"

definition stops :: "string \<Rightarrow> int list \<Rightarrow> (int \<times> event) list" where
  "stops T ts = map (\<lambda>now. (now, Stop T)) ts"

text \<open>
  A sequence of \<open>start\<close>/\<open>stop\<close> calls on one title, each with the clock reading at
  which it is made.
\<close>

datatype call = StartCall | StopCall

definition call_event :: "string \<Rightarrow> call \<Rightarrow> event" where
  "call_event T c = (case c of StartCall \<Rightarrow> Start T | StopCall \<Rightarrow> Stop T)"

definition calls_on :: "string \<Rightarrow> (int \<times> call) list \<Rightarrow> (int \<times> event) list" where
  "calls_on T cs = map (\<lambda>(now, c). (now, call_event T c)) cs"






text \<open>
  A timer whose \<open>runningSince\<close> lies after the clock reading of the next call, as in a
  state loaded from storage or after the system clock has been set back.
\<close>

definition skewed_engine :: engine where
  "skewed_engine = init_engine\<lparr>titleTimers :=
     [''A'' \<mapsto> \<lparr>accumulated = 0, runningSince = Some 10000, activeCount = 1\<rparr>]\<rparr>"

text \<open>
  Engines in which the title \<open>''A''\<close> has seven milliseconds banked: idle, and running
  since the clock reading 1000.
\<close>

definition idle_engine :: engine where
  "idle_engine = init_engine\<lparr>titleTimers :=
     [''A'' \<mapsto> \<lparr>accumulated = 7, runningSince = None, activeCount = 0\<rparr>]\<rparr>"

definition running_engine :: engine where
  "running_engine = init_engine\<lparr>titleTimers :=
     [''A'' \<mapsto> \<lparr>accumulated = 7, runningSince = Some 1000, activeCount = 1\<rparr>]\<rparr>"


text \<open>An engine in which tab 3 is the active tab and has reported nothing yet.\<close>

definition focused_engine :: engine where
  "focused_engine = init_engine\<lparr>currentActiveTabId := Some 3\<rparr>"

text \<open>An engine in which tab 3 has reported the title \<open>''A''\<close> and no tab is active.\<close>

definition titled_engine :: engine where
  "titled_engine = init_engine\<lparr>tabToTitle := [3 \<mapsto> ''A'']\<rparr>"

section \<open>Persistent Record Store (storage-manager)\<close>

text \<open>
  The document that \<open>ProblemStorageManager\<close> keeps under its key in
  \<open>chrome.storage.local\<close>, with the types of the interfaces \<open>StoredProblemData\<close>,
  \<open>TagStats\<close> and \<open>ProblemStorage\<close>. An object used as a dictionary is an association
  list in the order of its keys, which are distinct: assigning to a key that exists
  replaces the value in place, assigning to a new key appends it (\<open>AList.update\<close>),
  and \<open>delete\<close> removes it (\<open>AList.delete\<close>). Numbers are integers; \<open>NaN\<close> is not
  modelled. The field \<open>lastAccessed\<close> of a tag's statistics is named
  \<open>tagLastAccessed\<close>, since a problem has a field of that name too.
\<close>

record StoredProblemData =
  title :: string
  number :: int
  difficulty :: string
  problemType :: string
  tags :: "string list"
  description :: string
  link :: string
  lastAccessed :: int
  timeSpent :: int
  isCompleted :: bool
  completedAt :: "int option"
  attempts :: int

record TagStat =
  count :: int
  completed :: int
  totalTime :: int
  tagLastAccessed :: int

text \<open>The recommendations are stored but not inspected by the operations modelled here.\<close>

typedecl SimilarQuestion

record Settings =
  maxStoredProblems :: int
  autoSave :: bool
  maxRecommendations :: int

record ProblemStorage =
  problems :: "(string \<times> StoredProblemData) list"
  lastUsedProblemId :: "string option"
  recommendations :: "(string \<times> SimilarQuestion list) list"
  revisions :: "(string \<times> StoredProblemData) list"
  tagStats :: "(string \<times> TagStat) list"
  settings :: Settings

text \<open>
  \<open>chrome.storage.local\<close> as far as the manager uses it: the value under its key, if
  any, and the number of \<open>set\<close> calls made so far.
\<close>

record 'd chrome_storage =
  stored :: "'d option"
  writes :: nat

definition DEFAULT_SETTINGS :: Settings where
  "DEFAULT_SETTINGS = \<lparr>maxStoredProblems = 50, autoSave = True, maxRecommendations = 20\<rparr>"

definition empty_storage :: ProblemStorage where
  "empty_storage =
     \<lparr>problems = [], lastUsedProblemId = None, recommendations = [], revisions = [],
      tagStats = [], settings = DEFAULT_SETTINGS\<rparr>"

definition getStorage :: "ProblemStorage chrome_storage \<Rightarrow> ProblemStorage" where
  "getStorage st = (case stored st of None \<Rightarrow> empty_storage | Some storage \<Rightarrow> storage)"

definition saveStorage :: "'d \<Rightarrow> 'd chrome_storage \<Rightarrow> 'd chrome_storage" where
  "saveStorage storage st = \<lparr>stored = Some storage, writes = Suc (writes st)\<rparr>"

subsection \<open>The problem identifier\<close>

text \<open>
  \<open>`${number}-${title.toLowerCase().replace(/[^a-z0-9]/g, '-')}`\<close>, for titles of
  ASCII characters.
\<close>

definition digit_char :: "nat \<Rightarrow> char" where
  "digit_char d = ''0123456789'' ! (d mod 10)"

function digits :: "nat \<Rightarrow> string" where
  "digits n = (if n < 10 then [digit_char n] else digits (n div 10) @ [digit_char (n mod 10)])"
  by pat_completeness auto
termination
  by (relation "measure id") auto

declare digits.simps [simp del]

definition show_int :: "int \<Rightarrow> string" where
  "show_int i = (if i < 0 then CHR ''-'' # digits (nat (- i)) else digits (nat i))"

definition lower_char :: "char \<Rightarrow> char" where
  "lower_char c =
     (case map_of (zip ''ABCDEFGHIJKLMNOPQRSTUVWXYZ'' ''abcdefghijklmnopqrstuvwxyz'') c of
        None \<Rightarrow> c
      | Some l \<Rightarrow> l)"

definition slug_char :: "char \<Rightarrow> char" where
  "slug_char c =
     (if c \<in> set ''abcdefghijklmnopqrstuvwxyz0123456789'' then c else CHR ''-'')"

definition generateProblemId :: "StoredProblemData \<Rightarrow> string" where
  "generateProblemId problemData =
     show_int (number problemData) @ ''-'' @ map (slug_char \<circ> lower_char) (title problemData)"

subsection \<open>Saving a problem and evicting old ones\<close>

text \<open>
  \<open>cleanupOldProblems\<close>: the entries are sorted by \<open>lastAccessed\<close> with the stable
  \<open>Array.prototype.sort\<close>, and the keys of the first \<open>length - maxProblems\<close> of them
  are deleted.
\<close>

definition cleanupOldProblems :: "ProblemStorage \<Rightarrow> ProblemStorage" where
  "cleanupOldProblems storage =
     (let entries = problems storage;
          maxProblems = maxStoredProblems (settings storage)
      in if int (length entries) \<le> maxProblems then storage
         else
           let ordered = sort_key (\<lambda>e. lastAccessed (snd e)) entries;
               toRemove = take (nat (int (length entries) - maxProblems)) ordered
           in storage\<lparr>problems :=
                foldl (\<lambda>ps e. AList.delete (fst e) ps) (problems storage) toRemove\<rparr>)"

text \<open>
  \<open>saveProblem\<close>: the spread copies every field of \<open>problemData\<close>; \<open>lastAccessed\<close> and
  \<open>timeSpent\<close> are then overwritten.
\<close>

definition saveProblem ::
  "int \<Rightarrow> StoredProblemData \<Rightarrow> ProblemStorage chrome_storage \<Rightarrow> ProblemStorage chrome_storage" where
  "saveProblem now problemData st =
     (let problemId = generateProblemId problemData;
          storage = getStorage st;
          existingTimeSpent = (case map_of (problems storage) problemId of
                                 None \<Rightarrow> 0
                               | Some existingProblem \<Rightarrow> timeSpent existingProblem);
          updatedProblem = problemData\<lparr>lastAccessed := now, timeSpent := existingTimeSpent\<rparr>;
          storage1 = storage\<lparr>problems := AList.update problemId updatedProblem (problems storage),
                             lastUsedProblemId := Some problemId\<rparr>;
          storage2 = cleanupOldProblems storage1
      in saveStorage storage2 st)"

definition updateTimeSpent ::
  "int \<Rightarrow> string \<Rightarrow> int \<Rightarrow> ProblemStorage chrome_storage \<Rightarrow> ProblemStorage chrome_storage" where
  "updateTimeSpent now problemId additionalTime st =
     (let storage = getStorage st
      in case map_of (problems storage) problemId of
           None \<Rightarrow> st
         | Some p \<Rightarrow>
             saveStorage
               (storage\<lparr>problems :=
                  AList.update problemId
                    (p\<lparr>timeSpent := timeSpent p + additionalTime, lastAccessed := now\<rparr>)
                    (problems storage)\<rparr>) st)"

subsection \<open>Completing a problem\<close>

text \<open>One round of the \<open>forEach\<close> of \<open>updateTagStats\<close>.\<close>

definition update_tag :: "StoredProblemData \<Rightarrow> bool \<Rightarrow> (string \<times> TagStat) list \<Rightarrow> string
    \<Rightarrow> (string \<times> TagStat) list" where
  "update_tag problem isCompleted' stats tag =
     (let entry = (case map_of stats tag of
                     None \<Rightarrow> \<lparr>count = 0, completed = 0, totalTime = 0, tagLastAccessed = 0\<rparr>
                   | Some e \<Rightarrow> e);
          e1 = entry\<lparr>count := count entry + 1,
                     totalTime := totalTime entry + timeSpent problem,
                     tagLastAccessed := lastAccessed problem\<rparr>;
          e2 = (if isCompleted' then e1\<lparr>completed := completed e1 + 1\<rparr> else e1)
      in AList.update tag e2 stats)"

definition updateTagStats :: "ProblemStorage \<Rightarrow> StoredProblemData \<Rightarrow> bool \<Rightarrow> ProblemStorage" where
  "updateTagStats storage problem isCompleted' =
     storage\<lparr>tagStats := foldl (update_tag problem isCompleted') (tagStats storage) (tags problem)\<rparr>"

text \<open>
  \<open>markProblemCompleted\<close>. On numbers \<open>attempts || 0\<close> is \<open>attempts\<close>. The revision is
  a copy of the record made after the three fields are set.
\<close>

definition markProblemCompleted ::
  "int \<Rightarrow> string \<Rightarrow> ProblemStorage chrome_storage \<Rightarrow> ProblemStorage chrome_storage" where
  "markProblemCompleted now problemId st =
     (let storage = getStorage st
      in case map_of (problems storage) problemId of
           None \<Rightarrow> st
         | Some p \<Rightarrow>
             let p1 = p\<lparr>isCompleted := True, completedAt := Some now, attempts := attempts p + 1\<rparr>;
                 storage1 = storage\<lparr>problems := AList.update problemId p1 (problems storage)\<rparr>;
                 storage2 = storage1\<lparr>revisions := AList.update problemId p1 (revisions storage1)\<rparr>;
                 storage3 = updateTagStats storage2 p1 True
             in saveStorage storage3 st)"

subsection \<open>Reads\<close>







subsection \<open>Export and import\<close>

text \<open>
  \<open>exportData\<close> and \<open>importData\<close> handle the document as an untyped value: whatever
  \<open>JSON.parse\<close> returns is tested for a \<open>problems\<close> field and then stored as it is.
  For these two methods the stored document is therefore a JSON value. \<open>JSON.parse\<close>
  and \<open>JSON.stringify\<close> belong to the platform: a text is represented by what
  \<open>JSON.parse\<close> makes of it, the value it denotes or a syntax error, and
  \<open>JSON.stringify\<close> gives the text that denotes its argument. Numbers are integers.
\<close>

datatype json =
    JNull
  | JBool bool
  | JNum int
  | JStr string
  | JArr "json list"
  | JObj "(string \<times> json) list"

datatype json_text = Text json | Malformed

datatype js_error = SyntaxError | TypeError | InvalidDataFormat

definition JSON_parse :: "json_text \<Rightarrow> js_error + json" where
  "JSON_parse text = (case text of Malformed \<Rightarrow> Inl SyntaxError | Text v \<Rightarrow> Inr v)"

definition JSON_stringify :: "json \<Rightarrow> json_text" where
  "JSON_stringify v = Text v"

fun truthy :: "json \<Rightarrow> bool" where
  "truthy JNull = False"
| "truthy (JBool b) = b"
| "truthy (JNum n) = (n \<noteq> 0)"
| "truthy (JStr s) = (s \<noteq> [])"
| "truthy (JArr xs) = True"
| "truthy (JObj props) = True"

text \<open>\<open>typeof v === 'object'\<close>.\<close>

fun typeof_object :: "json \<Rightarrow> bool" where
  "typeof_object JNull = True"
| "typeof_object (JArr xs) = True"
| "typeof_object (JObj props) = True"
| "typeof_object v = False"

text \<open>
  \<open>importedData.problems\<close>: a \<open>TypeError\<close> on \<open>null\<close>, the field of an object if it has
  one, and \<open>undefined\<close> (\<open>None\<close>) otherwise.
\<close>

fun problems_of :: "json \<Rightarrow> js_error + json option" where
  "problems_of JNull = Inl TypeError"
| "problems_of (JObj props) = Inr (map_of props ''problems'')"
| "problems_of v = Inr None"

definition empty_document :: json where
  "empty_document =
     JObj [(''problems'', JObj []), (''lastUsedProblemId'', JNull),
           (''recommendations'', JObj []), (''revisions'', JObj []), (''tagStats'', JObj []),
           (''settings'', JObj [(''maxStoredProblems'', JNum 50), (''autoSave'', JBool True),
                                (''maxRecommendations'', JNum 20)])]"

text \<open>\<open>getStorage\<close> on the untyped document, with its test \<open>if (!storage)\<close>.\<close>

definition getStorage_json :: "json chrome_storage \<Rightarrow> json" where
  "getStorage_json st =
     (case stored st of
        None \<Rightarrow> empty_document
      | Some storage \<Rightarrow> if truthy storage then storage else empty_document)"

definition exportData :: "json chrome_storage \<Rightarrow> json_text \<times> json chrome_storage" where
  "exportData st = (JSON_stringify (getStorage_json st), st)"

text \<open>The \<open>try\<close> block of \<open>importData\<close> up to the call of \<open>saveStorage\<close>.\<close>

definition validated :: "json_text \<Rightarrow> js_error + json" where
  "validated jsonData =
     (case JSON_parse jsonData of
        Inl e \<Rightarrow> Inl e
      | Inr importedData \<Rightarrow>
          (case problems_of importedData of
             Inl e \<Rightarrow> Inl e
           | Inr None \<Rightarrow> Inl InvalidDataFormat
           | Inr (Some p) \<Rightarrow>
               if \<not> truthy p \<or> \<not> typeof_object p then Inl InvalidDataFormat
               else Inr importedData))"

definition importData :: "json_text \<Rightarrow> json chrome_storage \<Rightarrow> bool \<times> json chrome_storage" where
  "importData jsonData st =
     (case validated jsonData of
        Inl e \<Rightarrow> (False, st)
      | Inr importedData \<Rightarrow> (True, saveStorage importedData st))"

subsection \<open>What the specification says of a completion\<close>

text \<open>
  The record as \<open>markCompleted\<close> leaves it at time \<open>now\<close>, and the statistics of a
  tag before the call (all zero when the tag has none) and after \<open>n\<close> increments for a
  record \<open>p\<close>.
\<close>

definition completed_at :: "int \<Rightarrow> StoredProblemData \<Rightarrow> StoredProblemData" where
  "completed_at now p = p\<lparr>isCompleted := True, completedAt := Some now, attempts := attempts p + 1\<rparr>"

definition stat_of :: "(string \<times> TagStat) list \<Rightarrow> string \<Rightarrow> TagStat" where
  "stat_of stats tag =
     (case map_of stats tag of
        None \<Rightarrow> \<lparr>count = 0, completed = 0, totalTime = 0, tagLastAccessed = 0\<rparr>
      | Some e \<Rightarrow> e)"

definition counted :: "int \<Rightarrow> StoredProblemData \<Rightarrow> TagStat \<Rightarrow> TagStat" where
  "counted n p e =
     \<lparr>count = count e + n, completed = completed e + n,
      totalTime = totalTime e + n * timeSpent p, tagLastAccessed = lastAccessed p\<rparr>"

text \<open>
  The record \<open>saveProblem\<close> is to store for a payload: the payload stamped with
  \<open>now\<close>, with the time spent so far.
\<close>

definition merged :: "int \<Rightarrow> StoredProblemData \<Rightarrow> int \<Rightarrow> StoredProblemData" where
  "merged now problemData spent = problemData\<lparr>lastAccessed := now, timeSpent := spent\<rparr>"

subsection \<open>Example stores\<close>

definition two_sum :: StoredProblemData where
  "two_sum =
     \<lparr>title = ''Two Sum'', number = 1, difficulty = ''Easy'', problemType = ''Algorithms'',
      tags = [''Array'', ''Sorting''], description = ''A beautiful question'',
      link = ''https://leetcode.com/problems/two-sum/'', lastAccessed = 1000, timeSpent = 300,
      isCompleted = False, completedAt = None, attempts = 0\<rparr>"

definition add_two :: StoredProblemData where
  "add_two =
     \<lparr>title = ''Add Two Numbers'', number = 2, difficulty = ''Medium'',
      problemType = ''Algorithms'', tags = [''Math''], description = ''A beautiful question'',
      link = ''https://leetcode.com/problems/add-two-numbers/'', lastAccessed = 1500,
      timeSpent = 40, isCompleted = False, completedAt = None, attempts = 0\<rparr>"

definition three_sum :: StoredProblemData where
  "three_sum =
     \<lparr>title = ''3Sum'', number = 15, difficulty = ''Medium'', problemType = ''Algorithms'',
      tags = [''Array''], description = ''A beautiful question'',
      link = ''https://leetcode.com/problems/3sum/'', lastAccessed = 0, timeSpent = 0,
      isCompleted = False, completedAt = None, attempts = 0\<rparr>"

text \<open>A store of two problems with a retention cap of \<open>cap\<close>.\<close>

definition two_problems :: "int \<Rightarrow> ProblemStorage chrome_storage" where
  "two_problems cap =
     \<lparr>stored = Some (empty_storage
        \<lparr>problems := [(''1-two-sum'', two_sum), (''2-add-two-numbers'', add_two)],
         tagStats := [(''Array'', \<lparr>count = 2, completed = 1, totalTime = 100, tagLastAccessed = 5\<rparr>)],
         settings := DEFAULT_SETTINGS\<lparr>maxStoredProblems := cap\<rparr>\<rparr>),
      writes = 0\<rparr>"

subsection \<open>What the specification says of a document\<close>

text \<open>
  A field of a document; a document with a \<open>problems\<close> mapping field, in the
  specification's words; and a document whose \<open>problems\<close> field is an object or an
  array, which is what \<open>typeof\<close> calls an object.
\<close>

definition field :: "string \<Rightarrow> json \<Rightarrow> json option" where
  "field k d = (case d of JObj props \<Rightarrow> map_of props k | _ \<Rightarrow> None)"

definition has_problems_mapping :: "json \<Rightarrow> bool" where
  "has_problems_mapping d = (case field ''problems'' d of Some (JObj m) \<Rightarrow> True | _ \<Rightarrow> False)"

definition has_problems_container :: "json \<Rightarrow> bool" where
  "has_problems_container d =
     (case field ''problems'' d of Some (JObj m) \<Rightarrow> True | Some (JArr xs) \<Rightarrow> True | _ \<Rightarrow> False)"

text \<open>Example storages: nothing stored yet, and a document with one problem.\<close>

definition fresh_storage :: "json chrome_storage" where
  "fresh_storage = \<lparr>stored = None, writes = 0\<rparr>"

definition one_problem_document :: json where
  "one_problem_document =
     JObj [(''problems'', JObj [(''1-two-sum'', JObj [(''title'', JStr ''Two Sum''),
                                                     (''timeSpent'', JNum 300)])]),
           (''lastUsedProblemId'', JStr ''1-two-sum''),
           (''recommendations'', JObj []), (''revisions'', JObj []), (''tagStats'', JObj []),
           (''settings'', JObj [(''maxStoredProblems'', JNum 50), (''autoSave'', JBool True),
                                (''maxRecommendations'', JNum 20)])]"

definition one_problem_storage :: "json chrome_storage" where
  "one_problem_storage = \<lparr>stored = Some one_problem_document, writes = 3\<rparr>"

section \<open>Properties of the engine\<close>

subsection \<open>Timers\<close>

lemma timer_inv_new: "timer_inv new_timer"
  by (simp add: timer_inv_def new_timer_def)

lemma timer_inv_start: "now \<noteq> 0 \<Longrightarrow> timer_inv t \<Longrightarrow> timer_inv (start_timer now t)"
  by (auto simp: timer_inv_def start_timer_def truthy_num_def Let_def split: option.splits)

lemma timer_inv_bank: "timer_inv t \<Longrightarrow> timer_inv (bank_timer now t)"
  by (auto simp: timer_inv_def bank_timer_def Let_def split: option.splits)

lemma timer_inv_stop: "timer_inv t \<Longrightarrow> timer_inv (stop_timer now t)"
  by (cases "runningSince t")
    (auto simp: timer_inv_def stop_timer_def bank_timer_def Let_def split: if_splits)

lemma engine_inv_iff:
  "engine_inv s = (\<forall>T t. titleTimers s T = Some t \<longrightarrow> timer_inv t)"
  by (auto simp: engine_inv_def ran_def)

lemma titleTimers_ensure:
  "titleTimers (ensureTitleTimer T s) k =
     (if k = T \<and> titleTimers s T = None then Some new_timer else titleTimers s k)"
  by (simp add: ensureTitleTimer_def split: option.splits)

lemma titleTimers_start:
  "titleTimers (startTitleIfNeeded now T s) k =
     (if k = T
      then Some (start_timer now (case titleTimers s T of None \<Rightarrow> new_timer | Some t \<Rightarrow> t))
      else titleTimers s k)"
  by (simp add: startTitleIfNeeded_def Let_def titleTimers_ensure split: option.splits)

lemma titleTimers_stop:
  "titleTimers (stopTitleIfNeeded now T s) k =
     (if k = T then map_option (stop_timer now) (titleTimers s T) else titleTimers s k)"
  by (simp add: stopTitleIfNeeded_def split: option.splits)

lemma titleTimers_pause:
  "titleTimers (pauseAllTitles now s) k = map_option (bank_timer now) (titleTimers s k)"
  by (simp add: pauseAllTitles_def)

lemma other_ensure [simp]:
  "tabToTitle (ensureTitleTimer T s) = tabToTitle s"
  "currentActiveTabId (ensureTitleTimer T s) = currentActiveTabId s"
  by (simp_all add: ensureTitleTimer_def split: option.splits)

lemma other_start [simp]:
  "tabToTitle (startTitleIfNeeded now T s) = tabToTitle s"
  "currentActiveTabId (startTitleIfNeeded now T s) = currentActiveTabId s"
  by (simp_all add: startTitleIfNeeded_def Let_def split: option.splits)

lemma other_stop [simp]:
  "tabToTitle (stopTitleIfNeeded now T s) = tabToTitle s"
  "currentActiveTabId (stopTitleIfNeeded now T s) = currentActiveTabId s"
  by (simp_all add: stopTitleIfNeeded_def split: option.splits)

lemma engine_inv_ensure: "engine_inv s \<Longrightarrow> engine_inv (ensureTitleTimer T s)"
  by (auto simp: engine_inv_iff titleTimers_ensure timer_inv_new split: if_splits)

lemma engine_inv_start: "now \<noteq> 0 \<Longrightarrow> engine_inv s \<Longrightarrow> engine_inv (startTitleIfNeeded now T s)"
  by (auto simp: engine_inv_iff titleTimers_start timer_inv_new timer_inv_start
      split: if_splits option.splits)

lemma engine_inv_stop: "engine_inv s \<Longrightarrow> engine_inv (stopTitleIfNeeded now T s)"
  by (auto simp: engine_inv_iff titleTimers_stop timer_inv_stop split: if_splits)

lemma engine_inv_pause: "engine_inv s \<Longrightarrow> engine_inv (pauseAllTitles now s)"
  by (auto simp: engine_inv_iff titleTimers_pause timer_inv_bank)

lemma engine_inv_fields:
  "engine_inv (s\<lparr>currentActiveTabId := c\<rparr>) = engine_inv s"
  "engine_inv (s\<lparr>tabToTitle := m\<rparr>) = engine_inv s"
  by (simp_all add: engine_inv_def)

lemma engine_inv_tabChange:
  "now \<noteq> 0 \<Longrightarrow> engine_inv s \<Longrightarrow> engine_inv (handleTabChange now newTabId s)"
  by (auto simp: handleTabChange_def Let_def engine_inv_fields engine_inv_start engine_inv_stop
      split: option.splits)

lemma engine_inv_tabRemoved:
  "engine_inv s \<Longrightarrow> engine_inv (handleTabRemoved now tabId s)"
  by (auto simp: handleTabRemoved_def Let_def engine_inv_fields engine_inv_stop
      split: option.splits)

lemma engine_inv_focus:
  "now \<noteq> 0 \<Longrightarrow> engine_inv s \<Longrightarrow> engine_inv (onFocusChanged now focus s)"
  by (auto simp: onFocusChanged_def engine_inv_fields engine_inv_pause engine_inv_tabChange
      split: option.splits)

lemma engine_inv_report:
  "now \<noteq> 0 \<Longrightarrow> engine_inv s \<Longrightarrow> engine_inv (reportTitle now tabId T s)"
  by (auto simp: reportTitle_def Let_def engine_inv_fields engine_inv_start engine_inv_ensure
      split: option.splits)

lemma engine_inv_step: "now \<noteq> 0 \<Longrightarrow> engine_inv s \<Longrightarrow> engine_inv (step now e s)"
  by (cases e) (simp_all add: engine_inv_start engine_inv_stop engine_inv_pause
      engine_inv_tabChange engine_inv_tabRemoved engine_inv_focus engine_inv_report)

lemma engine_inv_run:
  "\<forall>now \<in> fst ` set es. now \<noteq> 0 \<Longrightarrow> engine_inv s \<Longrightarrow> engine_inv (run es s)"
  by (induction es arbitrary: s) (auto simp: engine_inv_step)

lemma engine_inv_init: "engine_inv init_engine"
  by (simp add: engine_inv_def init_engine_def)

lemma stop_timer_count_nonneg: "0 \<le> activeCount (stop_timer now t)"
  by (simp add: stop_timer_def bank_timer_def Let_def split: option.splits)

lemma stop_timer_acc_nonneg:
  "0 \<le> accumulated t \<Longrightarrow> (\<And>since. runningSince t = Some since \<Longrightarrow> since \<le> now)
   \<Longrightarrow> 0 \<le> accumulated (stop_timer now t)"
  by (auto simp add: stop_timer_def bank_timer_def Let_def split: option.splits)

lemma current_after_tabChange:
  "currentActiveTabId (handleTabChange now newTabId s) = newTabId"
  by (simp add: handleTabChange_def Let_def split: option.splits)

lemma count_start: "activeCount (start_timer now t) = activeCount t + 1"
  by (simp add: start_timer_def Let_def)

lemma acc_start: "accumulated (start_timer now t) = accumulated t"
  by (simp add: start_timer_def Let_def)

lemma activeCount_of_start:
  "activeCount_of (startTitleIfNeeded now T s) T = activeCount_of s T + 1"
  by (simp add: activeCount_of_def titleTimers_start count_start new_timer_def split: option.splits)

lemma accumulated_of_start:
  "accumulated_of (startTitleIfNeeded now T s) T = accumulated_of s T"
  by (simp add: accumulated_of_def titleTimers_start acc_start new_timer_def split: option.splits)

lemma report_active:
  assumes "currentActiveTabId s = Some tabId" "tabId \<noteq> 0" "T \<noteq> []"
  shows "reportTitle now tabId (Some T) s =
         startTitleIfNeeded now T (s\<lparr>tabToTitle := (tabToTitle s)(tabId \<mapsto> T)\<rparr>)"
proof -
  have e: "ensureTitleTimer T (startTitleIfNeeded now T s') = startTitleIfNeeded now T s'" for s'
    by (simp add: ensureTitleTimer_def titleTimers_start)
  have "startTitleIfNeeded now T (ensureTitleTimer T s') = startTitleIfNeeded now T s'" for s'
    by (simp add: startTitleIfNeeded_def ensureTitleTimer_def Let_def split: option.splits)
  with assms show ?thesis
    by (simp add: reportTitle_def truthy_str_def truthy_num_def Let_def)
qed

lemma report_active_fields:
  assumes "currentActiveTabId s = Some tabId" "tabId \<noteq> 0" "T \<noteq> []"
  shows "currentActiveTabId (reportTitle now tabId (Some T) s) = Some tabId"
    and "activeCount_of (reportTitle now tabId (Some T) s) T = activeCount_of s T + 1"
    and "accumulated_of (reportTitle now tabId (Some T) s) T = accumulated_of s T"
    and "titleTimers (reportTitle now tabId (Some T) s) T =
         Some (start_timer now (case titleTimers s T of None \<Rightarrow> new_timer | Some t \<Rightarrow> t))"
  using assms
  by (simp_all add: report_active activeCount_of_start accumulated_of_start titleTimers_start)
    (simp_all add: activeCount_of_def accumulated_of_def)

lemma reports_count:
  assumes "tabId \<noteq> 0" "T \<noteq> []"
  shows "currentActiveTabId s = Some tabId \<Longrightarrow>
     currentActiveTabId (run (reports tabId T ts) s) = Some tabId \<and>
     activeCount_of (run (reports tabId T ts) s) T = activeCount_of s T + int (length ts) \<and>
     accumulated_of (run (reports tabId T ts) s) T = accumulated_of s T"
proof (induction ts arbitrary: s)
  case Nil
  then show ?case by (simp add: reports_def)
next
  case (Cons now ts)
  have c: "currentActiveTabId (reportTitle now tabId (Some T) s) = Some tabId"
    using Cons.prems assms by (rule report_active_fields)
  from Cons.IH [OF c] show ?case
    using report_active_fields(2,3) [OF Cons.prems assms, of now]
    by (simp add: reports_def)
qed

lemma stop_timer_above_one:
  "1 < activeCount t \<Longrightarrow> stop_timer now t = t\<lparr>activeCount := activeCount t - 1\<rparr>"
  by (simp add: stop_timer_def Let_def)

lemma stops_partial:
  "int (length ss) < activeCount_of s T \<Longrightarrow>
     activeCount_of (run (stops T ss) s) T = activeCount_of s T - int (length ss) \<and>
     accumulated_of (run (stops T ss) s) T = accumulated_of s T \<and>
     runningSince_of (run (stops T ss) s) T = runningSince_of s T"
proof (induction ss arbitrary: s)
  case Nil
  then show ?case by (simp add: stops_def)
next
  case (Cons now ss)
  from Cons.prems obtain t where t: "titleTimers s T = Some t" and big: "1 < activeCount t"
    by (auto simp: activeCount_of_def split: option.splits)
  let ?s1 = "stopTitleIfNeeded now T s"
  have s1: "titleTimers ?s1 T = Some (t\<lparr>activeCount := activeCount t - 1\<rparr>)"
    using t big by (simp add: titleTimers_stop stop_timer_above_one)
  have f: "activeCount_of ?s1 T = activeCount_of s T - 1"
    "accumulated_of ?s1 T = accumulated_of s T" "runningSince_of ?s1 T = runningSince_of s T"
    using s1 t by (simp_all add: activeCount_of_def accumulated_of_def runningSince_of_def)
  have "int (length ss) < activeCount_of ?s1 T"
    using Cons.prems f by simp
  from Cons.IH [OF this] f show ?case
    by (simp add: stops_def)
qed

lemma run_append: "run (es1 @ es2) s = run es2 (run es1 s)"
  by (induction es1 arbitrary: s) auto

lemma stop_last:
  assumes "activeCount_of s T = 1" "runningSince_of s T = Some since" "since \<noteq> 0"
  shows "activeCount_of (stopTitleIfNeeded now T s) T = 0 \<and>
         runningSince_of (stopTitleIfNeeded now T s) T = None \<and>
         accumulated_of (stopTitleIfNeeded now T s) T = accumulated_of s T + (now - since)"
  using assms
  by (auto simp: activeCount_of_def runningSince_of_def accumulated_of_def titleTimers_stop
      stop_timer_def bank_timer_def Let_def split: option.splits)

lemma reports_since:
  assumes "tabId \<noteq> 0" "T \<noteq> []"
  shows "currentActiveTabId s = Some tabId \<Longrightarrow> 0 < activeCount_of s T \<Longrightarrow>
     runningSince_of (run (reports tabId T ts) s) T = runningSince_of s T"
proof (induction ts arbitrary: s)
  case Nil
  then show ?case by (simp add: reports_def)
next
  case (Cons now ts)
  let ?s1 = "reportTitle now tabId (Some T) s"
  note f = report_active_fields [OF Cons.prems(1) assms, of now]
  from Cons.prems(2) have "runningSince_of ?s1 T = runningSince_of s T"
    by (auto simp: f(4) runningSince_of_def activeCount_of_def start_timer_def Let_def
        split: option.splits)
  moreover have "0 < activeCount_of ?s1 T"
    using f(2) Cons.prems(2) by simp
  ultimately show ?case
    using Cons.IH [OF f(1)] by (simp add: reports_def)
qed

lemma first_report_since:
  assumes "currentActiveTabId s = Some tabId" "tabId \<noteq> 0" "T \<noteq> []"
    and "activeCount_of s T = 0" "\<not> truthy_num (runningSince_of s T)"
  shows "runningSince_of (reportTitle now tabId (Some T) s) T = Some now"
  using assms(4,5)
  by (auto simp: report_active_fields(4) [OF assms(1-3)] runningSince_of_def activeCount_of_def
      start_timer_def new_timer_def truthy_num_def Let_def split: option.splits)


lemma calls_on_simps [simp]:
  "calls_on T [] = []"
  "calls_on T ((now, c) # cs) = (now, call_event T c) # calls_on T cs"
  "calls_on T (cs1 @ cs2) = calls_on T cs1 @ calls_on T cs2"
  by (simp_all add: calls_on_def)








text \<open>The definitions that evaluate a run on a concrete engine.\<close>

lemmas engine_eval =
  init_engine_def calls_on_def call_event_def startTitleIfNeeded_def stopTitleIfNeeded_def
  ensureTitleTimer_def start_timer_def stop_timer_def bank_timer_def new_timer_def
  truthy_num_def truthy_str_def accumulated_of_def activeCount_of_def runningSince_of_def Let_def

text \<open>
  Why the clock readings are taken to be positive: a reading of \<open>0\<close> stored in
  \<open>runningSince\<close> is falsy, so the stop that follows banks nothing.
\<close>

lemma zero_reading_is_not_banked:
  "accumulated_of (run (calls_on ''A'' [(0, StartCall), (5000, StopCall)]) init_engine) ''A'' = 0"
  by (simp add: engine_eval)

section \<open>Properties of the record store\<close>

lemma map_of_update_tag:
  "map_of (update_tag p True stats t) tag =
     (if tag = t then Some (counted 1 p (stat_of stats t)) else map_of stats tag)"
  by (simp add: update_tag_def Let_def update_conv' counted_def stat_of_def split: option.splits)

lemma counted_counted: "counted 1 p (counted n p e) = counted (n + 1) p e"
  by (simp add: counted_def algebra_simps)

lemma map_of_tag_fold:
  "map_of (foldl (update_tag p True) stats tgs) tag =
     (if tag \<in> set tgs then Some (counted (int (count_list tgs tag)) p (stat_of stats tag))
      else map_of stats tag)"
proof (induction tgs arbitrary: stats)
  case Nil
  then show ?case by simp
next
  case (Cons t tgs)
  let ?s1 = "update_tag p True stats t"
  have st: "stat_of ?s1 tag = (if tag = t then counted 1 p (stat_of stats t) else stat_of stats tag)"
    by (simp add: stat_of_def [of ?s1] map_of_update_tag) (simp add: stat_of_def)
  have c0: "counted 0 p' e = e\<lparr>tagLastAccessed := lastAccessed p'\<rparr>" for p' e
    by (simp add: counted_def)
  show ?case
  proof (cases "tag = t")
    case True
    then have t: "t = tag" by simp
    have "tag \<notin> set tgs \<Longrightarrow> count_list tgs tag = 0" by simp
    then show ?thesis
      unfolding t by (simp add: Cons.IH st [unfolded t] map_of_update_tag)
        (simp add: counted_def algebra_simps)
  next
    case False
    then show ?thesis
      by (simp add: Cons.IH st map_of_update_tag)
  qed
qed

lemma count_list_distinct: "distinct xs \<Longrightarrow> x \<in> set xs \<Longrightarrow> count_list xs x = 1"
  by (induction xs) auto

lemma getStorage_save [simp]: "getStorage (saveStorage d st) = d"
  by (simp add: getStorage_def saveStorage_def)

lemma writes_save [simp]: "writes (saveStorage d st) = Suc (writes st)"
  by (simp add: saveStorage_def)

lemma markCompleted_result:
  assumes "map_of (problems (getStorage st)) problemId = Some p"
  shows "markProblemCompleted now problemId st =
     saveStorage ((getStorage st)
       \<lparr>problems := AList.update problemId (completed_at now p) (problems (getStorage st)),
        revisions := AList.update problemId (completed_at now p) (revisions (getStorage st)),
        tagStats := foldl (update_tag (completed_at now p) True) (tagStats (getStorage st)) (tags p)\<rparr>) st"
  using assms
  by (simp add: markProblemCompleted_def Let_def updateTagStats_def completed_at_def)

lemma foldl_delete:
  "foldl (\<lambda>ps e. AList.delete (fst e) ps) ps rem = filter (\<lambda>e. fst e \<notin> fst ` set rem) ps"
proof (induction rem arbitrary: ps)
  case Nil
  then show ?case by simp
next
  case (Cons r rem)
  have "AList.delete (fst r) ps = filter (\<lambda>e. fst e \<noteq> fst r) ps"
    by (auto simp: AList.delete_eq intro: filter_cong)
  then show ?case
    by (simp add: Cons.IH)
qed

lemma cleanup_below:
  "int (length (problems storage)) \<le> maxStoredProblems (settings storage) \<Longrightarrow>
   cleanupOldProblems storage = storage"
  by (simp add: cleanupOldProblems_def Let_def)

lemma cleanup_above:
  "maxStoredProblems (settings storage) < int (length (problems storage)) \<Longrightarrow>
   cleanupOldProblems storage =
     storage\<lparr>problems :=
       filter (\<lambda>e. fst e \<notin> fst ` set (take (nat (int (length (problems storage))
                  - maxStoredProblems (settings storage)))
                (sort_key (\<lambda>e. lastAccessed (snd e)) (problems storage))))
         (problems storage)\<rparr>"
  by (simp add: cleanupOldProblems_def Let_def foldl_delete)




lemma length_update_old: "k \<in> fst ` set al \<Longrightarrow> length (AList.update k v al) = length al"
  by (induction al) auto

lemma map_of_filter_keys:
  "map_of (filter (\<lambda>e. fst e \<notin> K) ps) k = (if k \<in> K then None else map_of ps k)"
  by (induction ps) auto

lemma id_two_sum: "generateProblemId two_sum = ''1-two-sum''"
  by (simp add: generateProblemId_def two_sum_def show_int_def digits.simps [of "Suc 0"]
      digit_char_def slug_char_def lower_char_def)




lemma saveProblem_result:
  "saveProblem now problemData st =
     saveStorage (cleanupOldProblems ((getStorage st)
       \<lparr>problems := AList.update (generateProblemId problemData)
          (merged now problemData
             (case map_of (problems (getStorage st)) (generateProblemId problemData) of
                None \<Rightarrow> 0 | Some existingProblem \<Rightarrow> timeSpent existingProblem))
          (problems (getStorage st)),
        lastUsedProblemId := Some (generateProblemId problemData)\<rparr>)) st"
  by (simp add: saveProblem_def Let_def merged_def)

lemma cleanup_frame:
  "lastUsedProblemId (cleanupOldProblems storage) = lastUsedProblemId storage"
  "settings (cleanupOldProblems storage) = settings storage"
  "revisions (cleanupOldProblems storage) = revisions storage"
  "tagStats (cleanupOldProblems storage) = tagStats storage"
  "recommendations (cleanupOldProblems storage) = recommendations storage"
  by (simp_all add: cleanupOldProblems_def Let_def)



text \<open>The definitions that evaluate the example stores.\<close>

lemmas store_eval =
  two_problems_def two_sum_def add_two_def three_sum_def empty_storage_def DEFAULT_SETTINGS_def
  getStorage_def saveStorage_def merged_def

lemma map_of_in_keys: "map_of ps k = Some v \<Longrightarrow> k \<in> fst ` set ps"
  by (metis map_of_eq_None_iff option.distinct(1))

subsection \<open>Export and import\<close>

lemma validated_Text:
  "validated (Text j) = (if has_problems_container j then Inr j else Inl
     (if j = JNull then TypeError else InvalidDataFormat))"
  by (cases j)
    (auto simp: validated_def JSON_parse_def has_problems_container_def field_def
      split: option.splits json.splits)

lemma validated_Malformed: "validated Malformed = Inl SyntaxError"
  by (simp add: validated_def JSON_parse_def)

lemma mapping_container: "has_problems_mapping d \<Longrightarrow> has_problems_container d"
  by (auto simp: has_problems_mapping_def has_problems_container_def
      split: option.splits json.splits)

lemma mapping_truthy: "has_problems_mapping d \<Longrightarrow> truthy d"
  by (cases d) (auto simp: has_problems_mapping_def field_def)

lemma import_failure_keeps: "\<not> fst (importData jsonData st) \<Longrightarrow> snd (importData jsonData st) = st"
  by (simp add: importData_def split: sum.splits)

section \<open>The claims of the specification\<close>

subsection \<open>Banked time is the time the title was active\<close>



subsection \<open>The invariant of the timers\<close>

text \<open>
  Claim C2. The invariant "\<open>runningSince\<close> is set iff \<open>activeCount > 0\<close>" holds for
  the timer that \<open>ensureTitleTimer\<close> creates and in the initial engine, and every
  operation of the engine (start, stop, pause-all, tab change, tab removal, window
  focus change, identity report) keeps it for the timers of all titles, so it holds
  after every run from the initial engine. The clock reading of an operation is
  not zero, as \<open>Date.now()\<close> never is.
\<close>

theorem timer_invariant_preserved:
  "timer_inv new_timer \<and> engine_inv init_engine \<and>
   (now \<noteq> 0 \<and> engine_inv s \<longrightarrow> engine_inv (step now e s)) \<and>
   ((\<forall>t \<in> fst ` set es. t \<noteq> 0) \<longrightarrow> engine_inv (run es init_engine))"
  by (simp add: timer_inv_new engine_inv_init engine_inv_step engine_inv_run)

theorem timer_invariant_preserved_witness:
  "engine_inv idle_engine \<and>
   engine_inv (step 1000 (Start ''A'') idle_engine) \<and>
   activeCount_of (step 1000 (Start ''A'') idle_engine) ''A'' = 1 \<and>
   engine_inv (run [(1000, Report 3 (Some ''A'')), (2000, TabChange (Some 3))] init_engine)"
proof -
  have inv: "engine_inv idle_engine"
    by (simp add: engine_inv_def idle_engine_def init_engine_def timer_inv_def)
  have cnt: "activeCount_of (step 1000 (Start ''A'') idle_engine) ''A'' = 1"
    by (simp add: activeCount_of_def idle_engine_def init_engine_def startTitleIfNeeded_def
        ensureTitleTimer_def start_timer_def truthy_num_def Let_def)
  from inv cnt
    timer_invariant_preserved [of 1000 idle_engine "Start ''A''"
      "[(1000, Report 3 (Some ''A'')), (2000, TabChange (Some 3))]"]
  show ?thesis by simp
qed

subsection \<open>Stopping never counts below zero\<close>

text \<open>
  Claim C3, as stated: from every timer state with non-negative \<open>accumulated\<close> and
  \<open>activeCount\<close>, \<open>stop(title)\<close> leaves both non-negative. It fails for
  \<open>accumulated\<close> when \<open>runningSince\<close> lies after the clock reading of the call.
\<close>

theorem stop_negative_counterexample:
  "0 \<le> accumulated_of skewed_engine ''A'' \<and> 0 \<le> activeCount_of skewed_engine ''A'' \<and>
   \<not> 0 \<le> accumulated_of (stopTitleIfNeeded 5000 ''A'' skewed_engine) ''A''"
  by (simp add: skewed_engine_def init_engine_def accumulated_of_def activeCount_of_def
      stopTitleIfNeeded_def stop_timer_def bank_timer_def Let_def)

text \<open>
  Claim C3, amended: \<open>stop(title)\<close> never leaves \<open>activeCount\<close> negative, whatever the
  state, also without a matching \<open>start\<close>; and it leaves \<open>accumulated\<close> non-negative if
  it was so before and \<open>runningSince\<close>, when set, is not later than the clock reading
  of the call.
\<close>

theorem stop_never_negative:
  "0 \<le> activeCount_of (stopTitleIfNeeded now T s) T \<and>
   (0 \<le> accumulated_of s T \<and>
    (\<forall>since. runningSince_of s T = Some since \<longrightarrow> since \<le> now)
    \<longrightarrow> 0 \<le> accumulated_of (stopTitleIfNeeded now T s) T)"
  by (auto simp: activeCount_of_def accumulated_of_def runningSince_of_def stopTitleIfNeeded_def
      stop_timer_count_nonneg stop_timer_acc_nonneg split: option.splits)

theorem stop_never_negative_witness:
  "0 \<le> accumulated_of idle_engine ''A'' \<and> activeCount_of idle_engine ''A'' = 0 \<and>
   runningSince_of idle_engine ''A'' = None \<and>
   activeCount_of (stopTitleIfNeeded 5 ''A'' idle_engine) ''A'' = 0 \<and>
   0 \<le> accumulated_of (stopTitleIfNeeded 5 ''A'' idle_engine) ''A'' \<and>
   0 \<le> accumulated_of running_engine ''A'' \<and>
   runningSince_of running_engine ''A'' = Some 1000 \<and> (1000 :: int) \<le> 5000 \<and>
   0 \<le> activeCount_of (stopTitleIfNeeded 5000 ''A'' running_engine) ''A'' \<and>
   0 \<le> accumulated_of (stopTitleIfNeeded 5000 ''A'' running_engine) ''A''"
proof -
  have idle: "0 \<le> accumulated_of idle_engine ''A'' \<and> activeCount_of idle_engine ''A'' = 0 \<and>
      runningSince_of idle_engine ''A'' = None"
    by (simp add: idle_engine_def init_engine_def accumulated_of_def activeCount_of_def
        runningSince_of_def)
  have after: "activeCount_of (stopTitleIfNeeded 5 ''A'' idle_engine) ''A'' = 0"
    by (simp add: idle_engine_def init_engine_def activeCount_of_def stopTitleIfNeeded_def
        stop_timer_def bank_timer_def Let_def)
  have running: "0 \<le> accumulated_of running_engine ''A'' \<and>
      runningSince_of running_engine ''A'' = Some 1000"
    by (simp add: running_engine_def init_engine_def accumulated_of_def runningSince_of_def)
  from stop_never_negative [of 5 "''A''" idle_engine]
    stop_never_negative [of 5000 "''A''" running_engine] idle after running
  show ?thesis by simp
qed

subsection \<open>Focusing a tab twice\<close>

text \<open>
  Claim C4. \<open>onTabFocused\<close> is idempotent: a second \<open>handleTabChange\<close> for the same
  tab, with no event in between and whatever the clock reads by then, returns the state
  of the first call unchanged, so no \<open>activeCount\<close> is incremented twice.
\<close>

theorem tabChange_idempotent:
  "handleTabChange now2 tabId (handleTabChange now1 tabId s) = handleTabChange now1 tabId s"
proof -
  have "currentActiveTabId (handleTabChange now1 tabId s) = tabId"
    by (rule current_after_tabChange)
  then show ?thesis
    by (simp add: handleTabChange_def [of now2])
qed

theorem tabChange_idempotent_witness:
  "activeCount_of (handleTabChange 1000 (Some 3) titled_engine) ''A'' = 1 \<and>
   activeCount_of (handleTabChange 2000 (Some 3) (handleTabChange 1000 (Some 3) titled_engine)) ''A'' = 1"
proof -
  have "activeCount_of (handleTabChange 1000 (Some 3) titled_engine) ''A'' = 1"
    by (simp add: titled_engine_def handleTabChange_def title_of_tab_def engine_eval)
  with tabChange_idempotent [of 2000 "Some 3" 1000 titled_engine] show ?thesis by simp
qed

subsection \<open>Completing a problem\<close>

text \<open>
  Claim C5. When the store holds a record \<open>p\<close> under \<open>problemId\<close>,
  \<open>markProblemCompleted\<close> makes exactly one write, and the document it writes has all
  four effects: the record has \<open>isCompleted = true\<close>, \<open>completedAt = now\<close> and
  \<open>attempts\<close> incremented; the revision under \<open>problemId\<close> is that very record; and
  the statistics of each tag of the record have \<open>count\<close> and \<open>completed\<close> raised by
  the number of times the tag occurs in the record's list, \<open>totalTime\<close> by that many
  times the record's \<open>timeSpent\<close>, and \<open>lastAccessed\<close> set to the record's. For a
  list of distinct tags, as the data model has it, that is one increment per tag.
  Other problems, revisions and tags, and the rest of the document, are unchanged.
\<close>

theorem markCompleted_effects:
  assumes "map_of (problems (getStorage st)) problemId = Some p"
  shows "writes (markProblemCompleted now problemId st) = Suc (writes st) \<and>
     map_of (problems (getStorage (markProblemCompleted now problemId st))) problemId
       = Some (completed_at now p) \<and>
     map_of (revisions (getStorage (markProblemCompleted now problemId st))) problemId
       = Some (completed_at now p) \<and>
     (\<forall>tag. map_of (tagStats (getStorage (markProblemCompleted now problemId st))) tag =
        (if tag \<in> set (tags p)
         then Some (counted (int (count_list (tags p) tag)) p (stat_of (tagStats (getStorage st)) tag))
         else map_of (tagStats (getStorage st)) tag)) \<and>
     (distinct (tags p) \<longrightarrow>
        (\<forall>tag \<in> set (tags p).
           map_of (tagStats (getStorage (markProblemCompleted now problemId st))) tag =
             Some \<lparr>count = count (stat_of (tagStats (getStorage st)) tag) + 1,
                   completed = completed (stat_of (tagStats (getStorage st)) tag) + 1,
                   totalTime = totalTime (stat_of (tagStats (getStorage st)) tag) + timeSpent p,
                   tagLastAccessed = lastAccessed p\<rparr>)) \<and>
     (\<forall>k. k \<noteq> problemId \<longrightarrow>
        map_of (problems (getStorage (markProblemCompleted now problemId st))) k
          = map_of (problems (getStorage st)) k \<and>
        map_of (revisions (getStorage (markProblemCompleted now problemId st))) k
          = map_of (revisions (getStorage st)) k) \<and>
     lastUsedProblemId (getStorage (markProblemCompleted now problemId st))
       = lastUsedProblemId (getStorage st) \<and>
     recommendations (getStorage (markProblemCompleted now problemId st))
       = recommendations (getStorage st) \<and>
     settings (getStorage (markProblemCompleted now problemId st)) = settings (getStorage st)"
proof -
  have same: "counted n (completed_at now p) e = counted n p e" for n e
    by (simp add: counted_def completed_at_def)
  have tg: "map_of (foldl (update_tag (completed_at now p) True) stats (tags p)) tag =
     (if tag \<in> set (tags p) then Some (counted (int (count_list (tags p) tag)) p (stat_of stats tag))
      else map_of stats tag)" for stats tag
    by (simp add: map_of_tag_fold same)
  show ?thesis
    unfolding markCompleted_result [OF assms]
    by (simp add: update_conv' tg count_list_distinct) (simp add: counted_def)
qed

theorem markCompleted_effects_witness:
  "map_of (problems (getStorage (two_problems 2))) ''1-two-sum'' = Some two_sum \<and>
   distinct (tags two_sum) \<and> tags two_sum = [''Array'', ''Sorting''] \<and>
   writes (markProblemCompleted 9000 ''1-two-sum'' (two_problems 2)) = 1 \<and>
   map_of (revisions (getStorage (markProblemCompleted 9000 ''1-two-sum'' (two_problems 2))))
     ''1-two-sum''
     = map_of (problems (getStorage (markProblemCompleted 9000 ''1-two-sum'' (two_problems 2))))
         ''1-two-sum'' \<and>
   map_of (revisions (getStorage (markProblemCompleted 9000 ''1-two-sum'' (two_problems 2))))
     ''1-two-sum''
     = Some (two_sum\<lparr>isCompleted := True, completedAt := Some 9000, attempts := 1\<rparr>) \<and>
   map_of (tagStats (getStorage (markProblemCompleted 9000 ''1-two-sum'' (two_problems 2)))) ''Array''
     = Some \<lparr>count = 3, completed = 2, totalTime = 400, tagLastAccessed = 1000\<rparr> \<and>
   map_of (tagStats (getStorage (markProblemCompleted 9000 ''1-two-sum'' (two_problems 2)))) ''Sorting''
     = Some \<lparr>count = 1, completed = 1, totalTime = 300, tagLastAccessed = 1000\<rparr>"
proof -
  have pre: "map_of (problems (getStorage (two_problems 2))) ''1-two-sum'' = Some two_sum"
    by (simp add: two_problems_def getStorage_def empty_storage_def)
  have tg: "distinct (tags two_sum)" "tags two_sum = [''Array'', ''Sorting'']"
    by (simp_all add: two_sum_def)
  have c: "completed_at 9000 two_sum
      = two_sum\<lparr>isCompleted := True, completedAt := Some 9000, attempts := 1\<rparr>"
    by (simp add: completed_at_def two_sum_def)
  have s: "stat_of (tagStats (getStorage (two_problems 2))) ''Array''
        = \<lparr>count = 2, completed = 1, totalTime = 100, tagLastAccessed = 5\<rparr>"
    "stat_of (tagStats (getStorage (two_problems 2))) ''Sorting''
        = \<lparr>count = 0, completed = 0, totalTime = 0, tagLastAccessed = 0\<rparr>"
    "timeSpent two_sum = 300" "lastAccessed two_sum = 1000" "writes (two_problems 2) = 0"
    by (simp_all add: stat_of_def two_problems_def getStorage_def empty_storage_def two_sum_def)
  from markCompleted_effects [OF pre, of 9000] pre tg c s
  show ?thesis by (simp add: counted_def)
qed

subsection \<open>Eviction\<close>




subsection \<open>Export followed by import\<close>

text \<open>
  Claim C7. For every store document, that is, whenever the document \<open>getStorage\<close>
  reads has a \<open>problems\<close> mapping, \<open>importData\<close> applied to the text that
  \<open>exportData\<close> returns succeeds, into whatever storage it is imported, and the
  document read afterwards is the exported one: the same \<open>problems\<close>,
  \<open>recommendations\<close>, \<open>revisions\<close> and \<open>tagStats\<close>. The export itself writes nothing.
\<close>

theorem export_import_roundtrip:
  assumes "has_problems_mapping (getStorage_json st)"
  shows "fst (importData (fst (exportData st)) st2) \<and>
     getStorage_json (snd (importData (fst (exportData st)) st2)) = getStorage_json st \<and>
     field ''problems'' (getStorage_json (snd (importData (fst (exportData st)) st2)))
       = field ''problems'' (getStorage_json st) \<and>
     field ''recommendations'' (getStorage_json (snd (importData (fst (exportData st)) st2)))
       = field ''recommendations'' (getStorage_json st) \<and>
     field ''revisions'' (getStorage_json (snd (importData (fst (exportData st)) st2)))
       = field ''revisions'' (getStorage_json st) \<and>
     field ''tagStats'' (getStorage_json (snd (importData (fst (exportData st)) st2)))
       = field ''tagStats'' (getStorage_json st) \<and>
     snd (exportData st) = st"
proof -
  let ?d = "getStorage_json st"
  have v: "validated (fst (exportData st)) = Inr ?d"
    using mapping_container [OF assms]
    by (simp add: exportData_def JSON_stringify_def validated_Text)
  have i: "importData (fst (exportData st)) st2 = (True, saveStorage ?d st2)"
    by (simp add: importData_def v)
  have r: "truthy d \<Longrightarrow> getStorage_json (saveStorage d st2) = d" for d
    by (simp add: getStorage_json_def saveStorage_def)
  have g: "getStorage_json (saveStorage ?d st2) = ?d"
    using mapping_truthy [OF assms] by (rule r)
  show ?thesis
    by (simp add: i g) (simp add: exportData_def)
qed

theorem export_import_roundtrip_witness:
  "has_problems_mapping (getStorage_json one_problem_storage) \<and>
   fst (importData (fst (exportData one_problem_storage)) fresh_storage) \<and>
   stored (snd (importData (fst (exportData one_problem_storage)) fresh_storage))
     = Some one_problem_document \<and>
   getStorage_json (snd (importData (fst (exportData one_problem_storage)) fresh_storage))
     = one_problem_document \<and>
   has_problems_mapping (getStorage_json fresh_storage) \<and>
   getStorage_json (snd (importData (fst (exportData fresh_storage)) fresh_storage))
     = empty_document"
proof -
  have g: "getStorage_json one_problem_storage = one_problem_document"
    "getStorage_json fresh_storage = empty_document"
    by (simp_all add: getStorage_json_def one_problem_storage_def one_problem_document_def
        fresh_storage_def)
  have pre: "has_problems_mapping (getStorage_json one_problem_storage)"
    "has_problems_mapping (getStorage_json fresh_storage)"
    unfolding g
    by (simp_all add: has_problems_mapping_def field_def one_problem_document_def
        empty_document_def)
  have s: "stored (snd (importData (fst (exportData one_problem_storage)) fresh_storage))
     = Some one_problem_document"
    using pre(1) export_import_roundtrip [OF pre(1), of fresh_storage]
    by (simp add: importData_def split: sum.splits)
      (simp add: exportData_def JSON_stringify_def validated_def JSON_parse_def g saveStorage_def
        split: sum.splits option.splits if_splits)
  from export_import_roundtrip [OF pre(1), of fresh_storage]
    export_import_roundtrip [OF pre(2), of fresh_storage] pre g s
  show ?thesis by simp
qed

subsection \<open>Import of a document without problems\<close>

text \<open>
  Claim C8, as stated: \<open>importData\<close> fails whenever the parsed input lacks a \<open>problems\<close>
  mapping field. It fails to hold for an input whose \<open>problems\<close> field is an array:
  \<open>typeof\<close> calls an array an object, so the input is accepted and replaces the
  stored document.
\<close>

theorem import_accepts_array_counterexample:
  "\<not> has_problems_mapping (JObj [(''problems'', JArr [])]) \<and>
   fst (importData (Text (JObj [(''problems'', JArr [])])) one_problem_storage) \<and>
   stored (snd (importData (Text (JObj [(''problems'', JArr [])])) one_problem_storage))
     = Some (JObj [(''problems'', JArr [])]) \<and>
   stored one_problem_storage = Some one_problem_document"
  by (simp add: has_problems_mapping_def field_def importData_def validated_def JSON_parse_def
      saveStorage_def one_problem_storage_def)

text \<open>
  Claim C8, amended. \<open>importData\<close> returns \<open>false\<close> and leaves the storage exactly as it
  was whenever the text is malformed or the parsed input has no \<open>problems\<close> field that
  is an object or an array, as for the input \<open>{"foo":1}\<close>; in every other case it
  returns \<open>true\<close> and stores the parsed input. Whenever it returns \<open>false\<close>, whatever
  the input, the storage is unchanged.
\<close>

theorem import_rejects_invalid:
  "(\<not> has_problems_container j \<longrightarrow> importData (Text j) st = (False, st)) \<and>
   (has_problems_container j \<longrightarrow> importData (Text j) st = (True, saveStorage j st)) \<and>
   importData Malformed st = (False, st) \<and>
   (\<not> fst (importData jsonData st) \<longrightarrow> snd (importData jsonData st) = st) \<and>
   importData (Text (JObj [(''foo'', JNum 1)])) st = (False, st)"
  by (simp add: importData_def validated_Text validated_Malformed import_failure_keeps
      [unfolded importData_def])
    (simp add: has_problems_container_def field_def)

theorem import_rejects_invalid_witness:
  "\<not> has_problems_container (JObj [(''foo'', JNum 1)]) \<and>
   importData (Text (JObj [(''foo'', JNum 1)])) one_problem_storage = (False, one_problem_storage) \<and>
   \<not> fst (importData Malformed one_problem_storage) \<and>
   snd (importData Malformed one_problem_storage) = one_problem_storage \<and>
   has_problems_container (JObj [(''problems'', JArr [])])"
proof -
  have c: "\<not> has_problems_container (JObj [(''foo'', JNum 1)])"
    "has_problems_container (JObj [(''problems'', JArr [])])"
    by (simp_all add: has_problems_container_def field_def)
  from import_rejects_invalid [of "JObj [(''foo'', JNum 1)]" one_problem_storage Malformed] c
  show ?thesis by simp
qed

subsection \<open>Saving a problem that is already stored\<close>

text \<open>
  Claim C9, as stated: for every store state and every payload whose identifier is in
  the catalogue, \<open>saveProblem\<close> keeps the record with its \<open>timeSpent\<close>. It fails when
  the catalogue exceeds the cap and the record, stamped with \<open>now\<close>, is among the
  oldest: the cleanup of the same call deletes it.
\<close>

theorem saveProblem_counterexample:
  "map_of (problems (getStorage (two_problems 1))) (generateProblemId two_sum) = Some two_sum \<and>
   map_of (problems (getStorage (saveProblem 1200 two_sum (two_problems 1))))
     (generateProblemId two_sum) = None"
  by (simp add: saveProblem_result id_two_sum)
    (simp add: store_eval cleanupOldProblems_def Let_def)

text \<open>
  Claim C9, amended. For every store state and every payload whose identifier is in the
  catalogue, \<open>saveProblem\<close> makes one write and sets \<open>lastUsedProblemId\<close> to the
  identifier; the record it stores is the payload with \<open>lastAccessed = now\<close> and the
  existing record's \<open>timeSpent\<close>, every other field being the payload's; after the
  call the catalogue holds that record under the identifier or, if the cleanup
  evicted it, none; and when the catalogue is within the cap it holds that record,
  in the place of the old one, and every other record is unchanged.
\<close>

theorem saveProblem_keeps_timeSpent:
  assumes "map_of (problems (getStorage st)) (generateProblemId problemData) = Some existing"
  shows "writes (saveProblem now problemData st) = Suc (writes st) \<and>
     lastUsedProblemId (getStorage (saveProblem now problemData st))
       = Some (generateProblemId problemData) \<and>
     timeSpent (merged now problemData (timeSpent existing)) = timeSpent existing \<and>
     lastAccessed (merged now problemData (timeSpent existing)) = now \<and>
     (merged now problemData (timeSpent existing))
        \<lparr>lastAccessed := lastAccessed problemData, timeSpent := timeSpent problemData\<rparr>
       = problemData \<and>
     (map_of (problems (getStorage (saveProblem now problemData st))) (generateProblemId problemData)
        = Some (merged now problemData (timeSpent existing)) \<or>
      map_of (problems (getStorage (saveProblem now problemData st))) (generateProblemId problemData)
        = None) \<and>
     (int (length (problems (getStorage st))) \<le> maxStoredProblems (settings (getStorage st)) \<longrightarrow>
        problems (getStorage (saveProblem now problemData st)) =
          AList.update (generateProblemId problemData)
            (merged now problemData (timeSpent existing)) (problems (getStorage st)) \<and>
        map_of (problems (getStorage (saveProblem now problemData st)))
          (generateProblemId problemData) = Some (merged now problemData (timeSpent existing)) \<and>
        (\<forall>k. k \<noteq> generateProblemId problemData \<longrightarrow>
           map_of (problems (getStorage (saveProblem now problemData st))) k
             = map_of (problems (getStorage st)) k))"
proof -
  let ?id = "generateProblemId problemData"
  let ?m = "merged now problemData (timeSpent existing)"
  let ?s1 = "(getStorage st)\<lparr>problems := AList.update ?id ?m (problems (getStorage st)),
                lastUsedProblemId := Some ?id\<rparr>"
  have res: "saveProblem now problemData st = saveStorage (cleanupOldProblems ?s1) st"
    using assms by (simp add: saveProblem_result)
  have len: "length (problems ?s1) = length (problems (getStorage st))"
    using map_of_in_keys [OF assms] by (simp add: length_update_old)
  have either: "map_of (problems (cleanupOldProblems ?s1)) ?id = Some ?m \<or>
      map_of (problems (cleanupOldProblems ?s1)) ?id = None"
  proof (cases "int (length (problems ?s1)) \<le> maxStoredProblems (settings ?s1)")
    case True
    then show ?thesis by (simp add: cleanup_below update_conv')
  next
    case False
    then have "maxStoredProblems (settings ?s1) < int (length (problems ?s1))" by simp
    from cleanup_above [OF this] show ?thesis
      by (simp add: map_of_filter_keys update_conv')
  qed
  have within: "cleanupOldProblems ?s1 = ?s1"
    if "int (length (problems (getStorage st))) \<le> maxStoredProblems (settings (getStorage st))"
    using that len by (simp add: cleanup_below)
  show ?thesis
    using either within
    by (auto simp: res cleanup_frame update_conv' merged_def)
qed

theorem saveProblem_keeps_timeSpent_witness:
  "map_of (problems (getStorage (two_problems 2)))
     (generateProblemId (two_sum\<lparr>difficulty := ''Medium'', timeSpent := 0\<rparr>)) = Some two_sum \<and>
   int (length (problems (getStorage (two_problems 2))))
     \<le> maxStoredProblems (settings (getStorage (two_problems 2))) \<and>
   map_of (problems (getStorage
       (saveProblem 2000 (two_sum\<lparr>difficulty := ''Medium'', timeSpent := 0\<rparr>) (two_problems 2))))
     ''1-two-sum''
     = Some (two_sum\<lparr>difficulty := ''Medium'', lastAccessed := 2000, timeSpent := 300\<rparr>)"
proof -
  have i: "generateProblemId (two_sum\<lparr>difficulty := ''Medium'', timeSpent := 0\<rparr>) = ''1-two-sum''"
    using id_two_sum by (simp add: generateProblemId_def)
  have pre: "map_of (problems (getStorage (two_problems 2)))
     (generateProblemId (two_sum\<lparr>difficulty := ''Medium'', timeSpent := 0\<rparr>)) = Some two_sum"
    unfolding i by (simp add: two_problems_def getStorage_def empty_storage_def)
  have cap: "int (length (problems (getStorage (two_problems 2))))
     \<le> maxStoredProblems (settings (getStorage (two_problems 2)))"
    by (simp add: store_eval)
  have m: "merged 2000 (two_sum\<lparr>difficulty := ''Medium'', timeSpent := 0\<rparr>) (timeSpent two_sum)
     = two_sum\<lparr>difficulty := ''Medium'', lastAccessed := 2000, timeSpent := 300\<rparr>"
    by (simp add: merged_def two_sum_def)
  from saveProblem_keeps_timeSpent [OF pre, of 2000] pre cap m i
  show ?thesis by (simp add: update_conv')
qed

subsection \<open>Repeated identity reports of the active tab\<close>

text \<open>
  Claim C10. \<open>reportIdentity\<close> is not idempotent for the active tab. In every state in
  which \<open>tabId\<close> is the active tab (an id the code's truthiness test accepts, so not
  \<open>0\<close>) and the reported title \<open>T\<close> is not empty, each report increments the
  \<open>activeCount\<close> of \<open>T\<close> by exactly one and leaves the tab active, so \<open>n\<close> reports add
  \<open>n\<close>. Fewer than \<open>n\<close> stops then leave the timer running with nothing banked; if
  the timer was idle before, the \<open>n\<close>-th stop makes it idle and banks the time from
  the first report to that stop.
\<close>

theorem report_not_idempotent:
  assumes "currentActiveTabId s = Some tabId" and "tabId \<noteq> 0" and "T \<noteq> []"
  shows "activeCount_of (reportTitle now tabId (Some T) s) T = activeCount_of s T + 1 \<and>
         currentActiveTabId (reportTitle now tabId (Some T) s) = Some tabId \<and>
         activeCount_of (run (reports tabId T ts) s) T = activeCount_of s T + int (length ts) \<and>
         (0 \<le> activeCount_of s T \<and> length ss < length ts \<longrightarrow>
            0 < activeCount_of (run (stops T ss) (run (reports tabId T ts) s)) T \<and>
            accumulated_of (run (stops T ss) (run (reports tabId T ts) s)) T = accumulated_of s T) \<and>
         (activeCount_of s T = 0 \<and> \<not> truthy_num (runningSince_of s T) \<and>
          ts \<noteq> [] \<and> hd ts \<noteq> 0 \<and> length ss = length ts \<longrightarrow>
            activeCount_of (run (stops T ss) (run (reports tabId T ts) s)) T = 0 \<and>
            runningSince_of (run (stops T ss) (run (reports tabId T ts) s)) T = None \<and>
            accumulated_of (run (stops T ss) (run (reports tabId T ts) s)) T =
              accumulated_of s T + (last ss - hd ts))"
proof (intro conjI impI)
  note one = report_active_fields [OF assms, of now]
  note many = reports_count [OF assms(2,3) assms(1), of ts]
  let ?r = "run (reports tabId T ts) s"
  show "activeCount_of (reportTitle now tabId (Some T) s) T = activeCount_of s T + 1"
    by (rule one)
  show "currentActiveTabId (reportTitle now tabId (Some T) s) = Some tabId"
    by (rule one)
  show "activeCount_of ?r T = activeCount_of s T + int (length ts)"
    using many by simp
  {
    assume a: "0 \<le> activeCount_of s T \<and> length ss < length ts"
    then have "int (length ss) < activeCount_of ?r T"
      using many by simp
    from stops_partial [OF this] many a
    show "0 < activeCount_of (run (stops T ss) ?r) T"
      and "accumulated_of (run (stops T ss) ?r) T = accumulated_of s T"
      by simp_all
  }
  {
    assume a: "activeCount_of s T = 0 \<and> \<not> truthy_num (runningSince_of s T) \<and>
          ts \<noteq> [] \<and> hd ts \<noteq> 0 \<and> length ss = length ts"
    then obtain t0 ts' where ts: "ts = t0 # ts'" and t0: "t0 \<noteq> 0"
      by (cases ts) auto
    from a ts have "ss \<noteq> []" by auto
    then obtain ss' l where ss: "ss = ss' @ [l]"
      by (metis append_butlast_last_id)
    let ?s1 = "reportTitle t0 tabId (Some T) s"
    note f1 = report_active_fields [OF assms, of t0]
    have since1: "runningSince_of ?s1 T = Some t0"
      using assms a by (simp add: first_report_since)
    have r: "?r = run (reports tabId T ts') ?s1"
      by (simp add: ts reports_def)
    have pos1: "0 < activeCount_of ?s1 T"
      using f1(2) a by simp
    have since: "runningSince_of ?r T = Some t0"
      using reports_since [OF assms(2,3) f1(1) pos1, of ts'] since1 r by simp
    have len: "int (length ss') < activeCount_of ?r T"
      using many a ss by simp
    let ?m = "run (stops T ss') ?r"
    from stops_partial [OF len] many a ss since
    have m: "activeCount_of ?m T = 1" "accumulated_of ?m T = accumulated_of s T"
      "runningSince_of ?m T = Some t0"
      by simp_all
    have fin: "run (stops T ss) ?r = stopTitleIfNeeded l T ?m"
      by (simp add: ss stops_def run_append)
    from stop_last [OF m(1) m(3) t0, of l] m(2)
    show "activeCount_of (run (stops T ss) ?r) T = 0"
      and "runningSince_of (run (stops T ss) ?r) T = None"
      and "accumulated_of (run (stops T ss) ?r) T = accumulated_of s T + (last ss - hd ts)"
      by (simp_all add: fin) (simp_all add: ss ts)
  }
qed

theorem report_not_idempotent_witness:
  "currentActiveTabId focused_engine = Some 3 \<and>
   activeCount_of focused_engine ''A'' = 0 \<and>
   activeCount_of (run (reports 3 ''A'' [1000, 2000]) focused_engine) ''A'' = 2 \<and>
   0 < activeCount_of (run (stops ''A'' [3000]) (run (reports 3 ''A'' [1000, 2000]) focused_engine)) ''A'' \<and>
   accumulated_of (run (stops ''A'' [3000]) (run (reports 3 ''A'' [1000, 2000]) focused_engine)) ''A'' = 0 \<and>
   activeCount_of (run (stops ''A'' [3000, 7000]) (run (reports 3 ''A'' [1000, 2000]) focused_engine)) ''A'' = 0 \<and>
   accumulated_of (run (stops ''A'' [3000, 7000]) (run (reports 3 ''A'' [1000, 2000]) focused_engine)) ''A'' = 6000"
proof -
  have pre: "currentActiveTabId focused_engine = Some 3" "(3::int) \<noteq> 0" "''A'' \<noteq> []"
    by (simp_all add: focused_engine_def init_engine_def)
  have st: "activeCount_of focused_engine ''A'' = 0" "accumulated_of focused_engine ''A'' = 0"
    "\<not> truthy_num (runningSince_of focused_engine ''A'')"
    by (simp_all add: focused_engine_def init_engine_def activeCount_of_def accumulated_of_def
        runningSince_of_def truthy_num_def)
  from report_not_idempotent [OF pre, of 1000 "[1000, 2000]" "[3000]"]
    report_not_idempotent [OF pre, of 1000 "[1000, 2000]" "[3000, 7000]"] pre(1) st
  show ?thesis by simp
qed

end
